theory Spec2Isabelle
  imports Main "HOL-Library.AList"
begin

section \<open>Time values\<close>

text \<open>
  A Python \<open>datetime\<close> is modelled by the number of microseconds since
  0001-01-01 00:00:00 (the resolution of \<open>datetime\<close>), a \<open>timedelta\<close> by a number
  of microseconds. Comparison, subtraction and addition of a \<open>timedelta\<close> are then the
  operations of \<open>int\<close>.
\<close>

type_synonym datetime = int
type_synonym timedelta = int
type_synonym date_range = "datetime \<times> datetime"

definition days_before_year :: "int \<Rightarrow> int" where
  "days_before_year y = (y - 1) * 365 + (y - 1) div 4 - (y - 1) div 100 + (y - 1) div 400"

definition is_leap :: "int \<Rightarrow> bool" where
  "is_leap y = (y mod 4 = 0 \<and> (y mod 100 \<noteq> 0 \<or> y mod 400 = 0))"

definition days_in_month :: "int \<Rightarrow> int \<Rightarrow> int" where
  "days_in_month y m =
     (if m = 2 then (if is_leap y then 29 else 28)
      else if m = 4 \<or> m = 6 \<or> m = 9 \<or> m = 11 then 30 else 31)"

definition days_before_month :: "int \<Rightarrow> int \<Rightarrow> int" where
  "days_before_month y m =
     [0, 31, 59, 90, 120, 151, 181, 212, 243, 273, 304, 334] ! nat (m - 1)
       + (if 2 < m \<and> is_leap y then 1 else 0)"

definition ymd2ord :: "int \<Rightarrow> int \<Rightarrow> int \<Rightarrow> int" where
  "ymd2ord y m d = days_before_year y + days_before_month y m + d"

text \<open>\<open>datetime(y, m, d, hh, mm, ss)\<close> for field values in range.\<close>

definition mk_datetime :: "int \<Rightarrow> int \<Rightarrow> int \<Rightarrow> int \<Rightarrow> int \<Rightarrow> int \<Rightarrow> datetime" where
  "mk_datetime y m d hh mm ss =
     (((ymd2ord y m d - 1) * 24 + hh) * 60 + mm) * 60000000 + ss * 1000000"

text \<open>\<open>timedelta(seconds=n)\<close>.\<close>

definition seconds :: "int \<Rightarrow> timedelta" where
  "seconds n = n * 1000000"

text \<open>
  \<open>td.total_seconds() / 60 > duration_in_minutes\<close>. The source divides in floating
  point; for the whole-second differences that arise from parsed records and the
  truncated current date the quotient is compared exactly, which is what is written
  here.
\<close>

definition minutes_gt :: "timedelta \<Rightarrow> int \<Rightarrow> bool" where
  "minutes_gt td duration_in_minutes = (duration_in_minutes * 60000000 < td)"

text \<open>
  \<open>datetime.strptime(t.strftime('%Y-%m-%d %H:%M:%S'), '%Y-%m-%d %H:%M:%S')\<close>: the
  microseconds are dropped.
\<close>

definition drop_microseconds :: "datetime \<Rightarrow> datetime" where
  "drop_microseconds t = t - t mod 1000000"

text \<open>
  \<open>t + td\<close> for a \<open>datetime\<close> and a \<open>timedelta\<close>: a result before
  \<open>datetime.min\<close> (0001-01-01 00:00:00) or after \<open>datetime.max\<close>
  (9999-12-31 23:59:59.999999) raises OverflowError.
\<close>

definition datetime_min :: datetime where
  "datetime_min = mk_datetime 1 1 1 0 0 0"

definition datetime_max :: datetime where
  "datetime_max = mk_datetime 9999 12 31 23 59 59 + 999999"

text \<open>
  The system clock: \<open>clock n\<close> is what the \<open>n\<close>-th call of \<open>datetime.now()\<close> made by
  a function returns, counted from the function's entry.
\<close>

type_synonym clock = "nat \<Rightarrow> datetime"

section \<open>Exceptions\<close>

datatype message =
    DoesNotMatchFormat "string list"
  | StrptimeMismatch
  | RMustBeNonNegative
  | NoCalendarFound
  | NotEnoughCalendars nat int

datatype error =
    ValueError message
  | IndexError
  | KeyError string
  | UnboundLocalError
  | OverflowError
  | Exception message

definition add_timedelta :: "datetime \<Rightarrow> timedelta \<Rightarrow> error + datetime" where
  "add_timedelta t td =
     (if t + td < datetime_min \<or> datetime_max < t + td then Inl OverflowError
      else Inr (t + td))"

section \<open>Python lists and dictionaries\<close>

text \<open>\<open>xs[j]\<close>: a negative index counts from the end; out of range raises.\<close>

definition in_range :: "'a list \<Rightarrow> int \<Rightarrow> bool" where
  "in_range xs j = (- int (length xs) \<le> j \<and> j < int (length xs))"

definition item :: "'a list \<Rightarrow> int \<Rightarrow> 'a" where
  "item xs j = (if j < 0 then xs ! nat (int (length xs) + j) else xs ! nat j)"

text \<open>
  A dictionary keeps its keys in insertion order, which is the order
  \<open>itertools.combinations\<close> enumerates them in: an association list.
\<close>

type_synonym calendar_date_ranges = "(string \<times> date_range list) list"

definition getitem :: "calendar_date_ranges \<Rightarrow> string \<Rightarrow> error + date_range list" where
  "getitem calendar_date_ranges calendar =
     (case map_of calendar_date_ranges calendar of
        None \<Rightarrow> Inl (KeyError calendar)
      | Some date_ranges \<Rightarrow> Inr date_ranges)"

text \<open>\<open>itertools.combinations(xs, r)\<close> for \<open>r \<ge> 0\<close>, in the order it yields.\<close>

fun combinations :: "'a list \<Rightarrow> nat \<Rightarrow> 'a list list" where
  "combinations xs 0 = [[]]"
| "combinations [] (Suc r) = []"
| "combinations (x # xs) (Suc r) = map ((#) x) (combinations xs r) @ combinations xs (Suc r)"

text \<open>\<open>max(xs, key=f)\<close> on a list \<open>x # xs\<close>: the first element with the largest key.\<close>

fun max_key :: "('a \<Rightarrow> 'k::linorder) \<Rightarrow> 'a \<Rightarrow> 'a list \<Rightarrow> 'a" where
  "max_key f best [] = best"
| "max_key f best (x # xs) = max_key f (if f best < f x then x else best) xs"

section \<open>The slot search\<close>

text \<open>
  Lines 138 to 143 of \<open>find_available_slot\<close>: the gap between the start of range
  \<open>i + 1\<close> and the end of range \<open>i + shift\<close>. \<open>Some t\<close> is the \<open>break\<close> with
  \<open>available_time_slot = t\<close>, \<open>None\<close> goes on with the loop.
\<close>

definition time_slot :: "date_range list \<Rightarrow> int \<Rightarrow> int \<Rightarrow> int \<Rightarrow> datetime \<Rightarrow> error + datetime option" where
  "time_slot date_ranges duration_in_minutes i shift available_time_slot =
     (if \<not> (in_range date_ranges (i + 1) \<and> in_range date_ranges (i + shift)) then Inl IndexError
      else
        let time_slot_value = fst (item date_ranges (i + 1)) - snd (item date_ranges (i + shift))
        in if minutes_gt time_slot_value duration_in_minutes
              \<and> snd (item date_ranges (i + shift)) < available_time_slot
           then Inr (Some (snd (item date_ranges (i + shift))))
           else Inr None)"

text \<open>The \<open>while\<close> loop of lines 125 to 143, entered with \<open>i = -1\<close> and \<open>shift = 0\<close>.\<close>

function while_loop :: "date_range list \<Rightarrow> int \<Rightarrow> int \<Rightarrow> int \<Rightarrow> datetime \<Rightarrow> error + datetime" where
  "while_loop date_ranges duration_in_minutes i shift available_time_slot =
     (if i < int (length date_ranges) - 2 then
        if \<not> (in_range date_ranges (i + 1 + shift) \<and> in_range date_ranges (i + 1 + 1))
        then Inl IndexError
        else if fst (item date_ranges (i + 1 + shift)) < fst (item date_ranges (i + 1 + 1))
                \<and> snd (item date_ranges (i + 1 + shift)) > snd (item date_ranges (i + 1 + 1))
        then
          (case time_slot date_ranges duration_in_minutes (i + 1) (shift - 1) available_time_slot of
             Inl e \<Rightarrow> Inl e
           | Inr (Some t) \<Rightarrow> Inr t
           | Inr None \<Rightarrow>
               while_loop date_ranges duration_in_minutes (i + 1) (shift - 1) available_time_slot)
        else if fst (item date_ranges (i + 1 + 1)) < snd (item date_ranges (i + 1 + shift))
                \<and> snd (item date_ranges (i + 1 + shift)) < snd (item date_ranges (i + 1 + 1))
        then while_loop date_ranges duration_in_minutes (i + 1) 0 available_time_slot
        else
          (case time_slot date_ranges duration_in_minutes (i + 1) 0 available_time_slot of
             Inl e \<Rightarrow> Inl e
           | Inr (Some t) \<Rightarrow> Inr t
           | Inr None \<Rightarrow> while_loop date_ranges duration_in_minutes (i + 1) 0 available_time_slot)
      else Inr available_time_slot)"
  by pat_completeness auto
termination
  by (relation "measure (\<lambda>(date_ranges, d, i, shift, a). nat (int (length date_ranges) - 2 - i))") auto

declare while_loop.simps [simp del]

text \<open>
  The body of the \<open>for\<close> loop for one combination (lines 97 to 143). \<open>Return t\<close> is
  the \<open>return datetime.now()\<close> of lines 110 and 118, which reads the clock again;
  \<open>Next t\<close> leaves the body with \<open>available_time_slot = t\<close>.
\<close>

datatype step = Return datetime | Next datetime

fun flatten_ranges :: "calendar_date_ranges \<Rightarrow> string list \<Rightarrow> error + date_range list" where
  "flatten_ranges calendar_date_ranges [] = Inr []"
| "flatten_ranges calendar_date_ranges (calendar # calendar_combination) =
     (case getitem calendar_date_ranges calendar of
        Inl e \<Rightarrow> Inl e
      | Inr date_ranges \<Rightarrow>
          (case flatten_ranges calendar_date_ranges calendar_combination of
             Inl e \<Rightarrow> Inl e
           | Inr rest \<Rightarrow> Inr (date_ranges @ rest)))"

definition scan_ranges :: "clock \<Rightarrow> datetime \<Rightarrow> int \<Rightarrow> date_range list \<Rightarrow> error + step" where
  "scan_ranges clock current_date duration_in_minutes date_ranges =
     (case sort_key fst date_ranges of
        [] \<Rightarrow> Inr (Return (clock 1))
      | first # others \<Rightarrow>
          if current_date < fst first
             \<and> minutes_gt (fst first - current_date) duration_in_minutes
          then Inr (Return (clock 1))
          else
            (case while_loop (first # others) duration_in_minutes (- 1) 0
                    (snd (max_key snd first others)) of
               Inl e \<Rightarrow> Inl e
             | Inr t \<Rightarrow> Inr (Next t)))"

definition for_body :: "clock \<Rightarrow> datetime \<Rightarrow> calendar_date_ranges \<Rightarrow> int \<Rightarrow> string list \<Rightarrow> error + step" where
  "for_body clock current_date calendar_date_ranges duration_in_minutes calendar_combination =
     (case flatten_ranges calendar_date_ranges calendar_combination of
        Inl e \<Rightarrow> Inl e
      | Inr date_ranges \<Rightarrow> scan_ranges clock current_date duration_in_minutes date_ranges)"

text \<open>
  The \<open>for\<close> loop over the combinations and the \<open>return\<close> of line 145 after it.
  \<open>available_time_slot\<close> is \<open>None\<close> as long as the variable is unbound.
\<close>

fun for_loop :: "clock \<Rightarrow> datetime \<Rightarrow> calendar_date_ranges \<Rightarrow> int \<Rightarrow> string list list
    \<Rightarrow> datetime option \<Rightarrow> error + datetime" where
  "for_loop clock current_date calendar_date_ranges duration_in_minutes [] available_time_slot =
     (case available_time_slot of
        None \<Rightarrow> Inl UnboundLocalError
      | Some t \<Rightarrow> add_timedelta t (seconds 1))"
| "for_loop clock current_date calendar_date_ranges duration_in_minutes
     (calendar_combination # comb) available_time_slot =
     (case for_body clock current_date calendar_date_ranges duration_in_minutes calendar_combination of
        Inl e \<Rightarrow> Inl e
      | Inr (Return t) \<Rightarrow> Inr t
      | Inr (Next t) \<Rightarrow>
          for_loop clock current_date calendar_date_ranges duration_in_minutes comb (Some t))"

definition find_available_slot :: "clock \<Rightarrow> calendar_date_ranges \<Rightarrow> int \<Rightarrow> int \<Rightarrow> error + datetime" where
  "find_available_slot clock calendar_date_ranges duration_in_minutes minimum_people =
     (let current_date = drop_microseconds (clock 0)
      in if minimum_people < 0 then Inl (ValueError RMustBeNonNegative)
         else for_loop clock current_date calendar_date_ranges duration_in_minutes
                (combinations (map fst calendar_date_ranges) (nat minimum_people)) None)"

section \<open>Parsing a record\<close>

text \<open>
  A Python \<open>str\<close> is modelled as a list of characters, one code point below 256 each.
  Among these code points \<open>\d\<close> matches the ten ASCII digits and \<open>\s\<close> the characters
  of \<open>whitespace\<close>.
\<close>

definition digit :: string where
  "digit = ''0123456789''"

definition nonzero :: string where
  "nonzero = ''123456789''"

definition whitespace :: string where
  "whitespace = [CHR '' '', CHR 0x09, CHR 0x0A, CHR 0x0B, CHR 0x0C, CHR 0x0D,
                 CHR 0x1C, CHR 0x1D, CHR 0x1E, CHR 0x1F, CHR 0x85, CHR 0xA0]"

text \<open>
  The regular expressions \<open>_strptime\<close> builds from a format: a directive is a group of
  alternatives, each a sequence of character classes; a character of the format stands for
  itself; a blank of the format becomes \<open>\s+\<close>.
\<close>

datatype re = Group "string list list" | Lit char | Spaces

fun match_seq :: "string list \<Rightarrow> string \<Rightarrow> (string \<times> string) option" where
  "match_seq [] s = Some ([], s)"
| "match_seq (cls # classes) [] = None"
| "match_seq (cls # classes) (c # s) =
     (if c \<in> set cls
      then (case match_seq classes s of None \<Rightarrow> None | Some (m, rest) \<Rightarrow> Some (c # m, rest))
      else None)"

text \<open>
  \<open>re_match\<close> lists the ways a sequence of expressions matches a prefix of the string, in
  the order backtracking tries them (alternatives from left to right, \<open>\s+\<close> longest
  first): the captured groups and the rest of the string. \<open>regex.match\<close> takes the first.
\<close>

fun re_match :: "re list \<Rightarrow> string \<Rightarrow> (string list \<times> string) list" where
  "re_match [] s = [([], s)]"
| "re_match (Lit c # res) s =
     (case s of [] \<Rightarrow> [] | x # xs \<Rightarrow> if x = c then re_match res xs else [])"
| "re_match (Group alternatives # res) s =
     concat (map (\<lambda>alt. case match_seq alt s of
                            None \<Rightarrow> []
                          | Some (m, rest) \<Rightarrow> map (\<lambda>(groups, r). (m # groups, r)) (re_match res rest))
                 alternatives)"
| "re_match (Spaces # res) s =
     concat (map (\<lambda>n. re_match res (drop n s))
                 (rev [1 ..< Suc (length (takeWhile (\<lambda>c. c \<in> set whitespace) s))]))"

definition directive_Y :: re where
  "directive_Y = Group [[digit, digit, digit, digit]]"

definition directive_m :: re where
  "directive_m = Group [[''1'', ''012''], [''0'', nonzero], [nonzero]]"

definition directive_d :: re where
  "directive_d = Group [[''3'', ''01''], [''12'', digit], [''0'', nonzero], [nonzero],
                        ['' '', nonzero]]"

definition directive_H :: re where
  "directive_H = Group [[''2'', ''0123''], [''01'', digit], [digit]]"

definition directive_M :: re where
  "directive_M = Group [[''012345'', digit], [digit]]"

definition directive_S :: re where
  "directive_S = Group [[''6'', ''01''], [''012345'', digit], [digit]]"

text \<open>The formats \<open>'%Y-%m-%d %H:%M:%S'\<close> and \<open>'%Y-%m-%d'\<close>.\<close>

definition datetime_format :: "re list" where
  "datetime_format =
     [directive_Y, Lit CHR ''-'', directive_m, Lit CHR ''-'', directive_d, Spaces,
      directive_H, Lit CHR '':'', directive_M, Lit CHR '':'', directive_S]"

definition date_format :: "re list" where
  "date_format = [directive_Y, Lit CHR ''-'', directive_m, Lit CHR ''-'', directive_d]"

text \<open>The characters an expression can match.\<close>

fun re_chars :: "re \<Rightarrow> char set" where
  "re_chars (Group alternatives) = (\<Union>alt\<in>set alternatives. \<Union>cls\<in>set alt. set cls)"
| "re_chars (Lit c) = {c}"
| "re_chars Spaces = set whitespace"

text \<open>\<open>int(s)\<close> for a captured group: digits, after a blank for a day written \<open>' 5'\<close>.\<close>

definition py_int :: "string \<Rightarrow> int" where
  "py_int s = foldl (\<lambda>n c. 10 * n + (int (of_char c) - 48)) 0
                (dropWhile (\<lambda>c. c \<in> set whitespace) s)"

text \<open>The constructor \<open>datetime(y, m, d, hh, mm, ss)\<close>: \<open>None\<close> is its ValueError.\<close>

definition datetime_new :: "int \<Rightarrow> int \<Rightarrow> int \<Rightarrow> int \<Rightarrow> int \<Rightarrow> int \<Rightarrow> datetime option" where
  "datetime_new y m d hh mm ss =
     (if 1 \<le> y \<and> y \<le> 9999 \<and> 1 \<le> m \<and> m \<le> 12 \<and> 1 \<le> d \<and> d \<le> days_in_month y m
         \<and> 0 \<le> hh \<and> hh \<le> 23 \<and> 0 \<le> mm \<and> mm \<le> 59 \<and> 0 \<le> ss \<and> ss \<le> 59
      then Some (mk_datetime y m d hh mm ss) else None)"

text \<open>
  \<open>datetime.strptime(data_string, format)\<close> for the two formats; \<open>None\<close> is its
  ValueError: no match, unconverted data after the match, or field values that are no
  date.
\<close>

definition strptime :: "string \<Rightarrow> re list \<Rightarrow> datetime option" where
  "strptime data_string format =
     (case re_match format data_string of
        [] \<Rightarrow> None
      | (groups, rest) # _ \<Rightarrow>
          if rest \<noteq> [] then None
          else (case map py_int groups of
                  [y, m, d, hh, mm, ss] \<Rightarrow> datetime_new y m d hh mm ss
                | [y, m, d] \<Rightarrow> datetime_new y m d 0 0 0
                | _ \<Rightarrow> None))"

text \<open>\<open>t.replace(hour=hh, minute=mm, second=ss)\<close>.\<close>

definition replace_time :: "datetime \<Rightarrow> int \<Rightarrow> int \<Rightarrow> int \<Rightarrow> datetime" where
  "replace_time t hh mm ss =
     t - t mod 86400000000 + ((hh * 60 + mm) * 60 + ss) * 1000000 + t mod 1000000"

text \<open>\<open>s.split(sep)\<close> for a separator that is not empty, and \<open>s.strip('\n')\<close>.\<close>

fun startswith :: "string \<Rightarrow> string \<Rightarrow> bool" where
  "startswith s [] = True"
| "startswith [] (p # ps) = False"
| "startswith (c # cs) (p # ps) = (c = p \<and> startswith cs ps)"

function split_from :: "string \<Rightarrow> string \<Rightarrow> string \<Rightarrow> string list" where
  "split_from sep acc [] = [rev acc]"
| "split_from sep acc (c # cs) =
     (if sep \<noteq> [] \<and> startswith (c # cs) sep
      then rev acc # split_from sep [] (drop (length sep) (c # cs))
      else split_from sep (c # acc) cs)"
  by pat_completeness auto
termination
  by (relation "measure (\<lambda>(sep, acc, s). length s)") auto

definition str_split :: "string \<Rightarrow> string \<Rightarrow> string list" where
  "str_split s sep = split_from sep [] s"

definition strip_newlines :: "string \<Rightarrow> string" where
  "strip_newlines s =
     rev (dropWhile (\<lambda>c. c = CHR 0x0A) (rev (dropWhile (\<lambda>c. c = CHR 0x0A) s)))"

text \<open>
  \<open>validate_date_range_format\<close>. \<open>two_part\<close> is the body of the outer \<open>try\<close> (lines 74
  and 75), \<open>entire_day\<close> its \<open>except ValueError\<close> handler (lines 77 to 83), which any other
  exception passes by.
\<close>

definition two_part :: "string list \<Rightarrow> error + date_range" where
  "two_part date_string =
     (if \<not> in_range date_string 0 then Inl IndexError
      else (case strptime (item date_string 0) datetime_format of
        None \<Rightarrow> Inl (ValueError StrptimeMismatch)
      | Some start_date_time_obj \<Rightarrow>
          if \<not> in_range date_string 1 then Inl IndexError
          else (case strptime (item date_string 1) datetime_format of
            None \<Rightarrow> Inl (ValueError StrptimeMismatch)
          | Some end_date_time_obj \<Rightarrow> Inr (start_date_time_obj, end_date_time_obj))))"

definition entire_day :: "string list \<Rightarrow> error + date_range" where
  "entire_day date_string =
     (if \<not> in_range date_string 0 then Inl IndexError
      else (case strptime (item date_string 0) date_format of
        None \<Rightarrow> Inl (ValueError (DoesNotMatchFormat date_string))
      | Some entire_day_date_time_obj \<Rightarrow>
          Inr (replace_time entire_day_date_time_obj 0 0 0,
               replace_time entire_day_date_time_obj 23 59 59)))"

definition validate_date_range_format :: "string \<Rightarrow> error + date_range" where
  "validate_date_range_format dates =
     (let date_string = str_split dates '' - ''
      in (case two_part date_string of
            Inl (ValueError _) \<Rightarrow> entire_day date_string
          | Inl e \<Rightarrow> Inl e
          | Inr r \<Rightarrow> Inr r))"

text \<open>
  The two patterns of a record, read with \<open>strptime\<close>: two parts around one separator
  \<open>' - '\<close>, both of the form \<open>YYYY-MM-DD HH:MM:SS\<close>, or one part of the form
  \<open>YYYY-MM-DD\<close>.
\<close>

definition matches_two_part :: "string \<Rightarrow> bool" where
  "matches_two_part record =
     (case str_split record '' - '' of
        [s, e] \<Rightarrow> strptime s datetime_format \<noteq> None \<and> strptime e datetime_format \<noteq> None
      | _ \<Rightarrow> False)"

definition matches_one_part :: "string \<Rightarrow> bool" where
  "matches_one_part record = (strptime record date_format \<noteq> None)"

section \<open>Loading the calendars\<close>

text \<open>
  \<open>get_calendar_file_names\<close>, given what \<open>os.listdir\<close> returns for the folder.
\<close>

definition endswith :: "string \<Rightarrow> string \<Rightarrow> bool" where
  "endswith s suffix = startswith (rev s) (rev suffix)"

definition get_calendar_file_names :: "string list \<Rightarrow> int \<Rightarrow> error + string list" where
  "get_calendar_file_names listdir minimum_people =
     (let files = filter (\<lambda>file. endswith file ''.txt'') listdir
      in if length files = 0 then Inl (Exception NoCalendarFound)
         else if int (length files) < minimum_people
         then Inl (Exception (NotEnoughCalendars (length files) minimum_people))
         else Inr files)"

text \<open>
  \<open>get_calendar_date_ranges\<close>. \<open>read_lines file\<close> is the list of lines that iterating
  over the open file yields. \<open>file_date_ranges\<close> is the loop over the lines of one file,
  \<open>calendars_loop\<close> the loop over the files, which fills the dictionary.
\<close>

fun file_date_ranges :: "datetime \<Rightarrow> string list \<Rightarrow> error + date_range list" where
  "file_date_ranges current_date [] = Inr []"
| "file_date_ranges current_date (line # lines) =
     (case validate_date_range_format (strip_newlines line) of
        Inl e \<Rightarrow> Inl e
      | Inr (start_date_time_obj, end_date_time_obj) \<Rightarrow>
          (case file_date_ranges current_date lines of
             Inl e \<Rightarrow> Inl e
           | Inr date_ranges \<Rightarrow>
               Inr (if current_date < end_date_time_obj
                    then (start_date_time_obj, end_date_time_obj) # date_ranges
                    else date_ranges)))"

fun calendars_loop :: "datetime \<Rightarrow> (string \<Rightarrow> string list) \<Rightarrow> string list
    \<Rightarrow> calendar_date_ranges \<Rightarrow> error + calendar_date_ranges" where
  "calendars_loop current_date read_lines [] calendar_date_ranges = Inr calendar_date_ranges"
| "calendars_loop current_date read_lines (file # calendar_files) calendar_date_ranges =
     (case file_date_ranges current_date (read_lines file) of
        Inl e \<Rightarrow> Inl e
      | Inr date_ranges \<Rightarrow>
          calendars_loop current_date read_lines calendar_files
            (AList.update file date_ranges calendar_date_ranges))"

definition get_calendar_date_ranges :: "clock \<Rightarrow> (string \<Rightarrow> string list) \<Rightarrow> string list
    \<Rightarrow> error + calendar_date_ranges" where
  "get_calendar_date_ranges clock read_lines calendar_files =
     calendars_loop (clock 0) read_lines calendar_files []"

text \<open>Two clocks for concrete runs: one that stands still and one that advances by a
  second with every reading.\<close>

definition fixed_clock :: "datetime \<Rightarrow> clock" where
  "fixed_clock t n = t"

definition ticking_clock :: "datetime \<Rightarrow> clock" where
  "ticking_clock t n = t + seconds (int n)"

text \<open>Times of day on 2022-05-14, for concrete runs.\<close>

definition at_time :: "int \<Rightarrow> int \<Rightarrow> int \<Rightarrow> datetime" where
  "at_time hh mm ss = mk_datetime 2022 5 14 hh mm ss"



text \<open>The lines of two calendar files, for a concrete run, and what they parse to.\<close>

definition example_lines :: "string \<Rightarrow> string list" where
  "example_lines file =
     (if file = ''a.txt''
      then [''2022-05-14 12:00:00 - 2022-05-14 12:59:59'' @ [CHR 0x0A],
            ''2022-05-13'' @ [CHR 0x0A],
            ''2022-05-14 12:00:00 - 2022-05-14 12:30:00'']
      else [])"

definition example_parsed :: "string \<Rightarrow> date_range list" where
  "example_parsed file =
     (if file = ''a.txt''
      then [(at_time 12 0 0, at_time 12 59 59),
            (mk_datetime 2022 5 13 0 0 0, mk_datetime 2022 5 13 23 59 59),
            (at_time 12 0 0, at_time 12 30 0)]
      else [])"

section \<open>Properties of the slot search\<close>

lemma combinations_too_few: "length xs < r \<Longrightarrow> combinations xs r = []"
  by (induction xs r rule: combinations.induct) auto

lemma for_loop_skip:
  "\<forall>c\<in>set earlier. \<exists>t. for_body clock cur m d c = Inr (Next t) \<Longrightarrow>
   \<exists>a'. for_loop clock cur m d (earlier @ rest) a = for_loop clock cur m d rest a'"
proof (induction earlier arbitrary: a)
  case Nil
  then show ?case by auto
next
  case (Cons c cs)
  then obtain t where t: "for_body clock cur m d c = Inr (Next t)" by auto
  from Cons obtain a' where
    "for_loop clock cur m d (cs @ rest) (Some t) = for_loop clock cur m d rest a'"
    by fastforce
  with t show ?case by auto
qed

text \<open>
  C8. With a positive minimum headcount, an empty calendar map or a headcount above the
  number of calendars leaves no combination to try: the \<open>for\<close> loop does not run and the
  final \<open>return\<close> raises (UnboundLocalError, as \<open>available_time_slot\<close> was never
  bound), so the caller gets an error and no timestamp.
\<close>

theorem find_available_slot_no_combination:
  assumes "0 < minimum_people"
    and "calendar_date_ranges = [] \<or> int (length calendar_date_ranges) < minimum_people"
  shows "find_available_slot clock calendar_date_ranges duration_in_minutes minimum_people
           = Inl UnboundLocalError"
proof -
  from assms have "length (map fst calendar_date_ranges) < nat minimum_people" by auto
  then have "combinations (map fst calendar_date_ranges) (nat minimum_people) = []"
    by (rule combinations_too_few)
  with assms(1) show ?thesis by (simp add: find_available_slot_def)
qed

theorem find_available_slot_no_combination_witness:
  "find_available_slot (fixed_clock (at_time 8 50 0)) [] 30 1 = Inl UnboundLocalError
   \<and> find_available_slot (fixed_clock (at_time 8 50 0)) [(''a.txt'', [])] 30 2
       = Inl UnboundLocalError"
  using find_available_slot_no_combination [of 1 "[]" "fixed_clock (at_time 8 50 0)" 30]
    find_available_slot_no_combination [of 2 "[(''a.txt'', [])]" "fixed_clock (at_time 8 50 0)" 30]
  by simp

lemma sort_key_hd_Min:
  assumes "sort_key f xs = y # ys"
  shows "f y = Min (f ` set xs)"
proof -
  have srt: "sorted (map f (y # ys))" using assms sorted_sort_key [of f xs] by simp
  have st: "set (y # ys) = set xs" using assms set_sort [of f xs] by simp
  have "Min (f ` set xs) = f y"
  proof (rule Min_eqI)
    show "finite (f ` set xs)" by simp
    show "f y \<in> f ` set xs" using st by auto
    fix v assume "v \<in> f ` set xs"
    then obtain x where "x \<in> set (y # ys)" "v = f x" using st by auto
    with srt show "f y \<le> v" by auto
  qed
  then show ?thesis by simp
qed

lemma scan_ranges_two_clocks:
  "scan_ranges clock cur d rs = scan_ranges clock' cur d rs
   \<or> (scan_ranges clock cur d rs = Inr (Return (clock 1))
      \<and> scan_ranges clock' cur d rs = Inr (Return (clock' 1)))"
  by (auto simp: scan_ranges_def split: list.split sum.split)

lemma for_body_two_clocks:
  "for_body clock cur m d c = for_body clock' cur m d c
   \<or> (for_body clock cur m d c = Inr (Return (clock 1))
      \<and> for_body clock' cur m d c = Inr (Return (clock' 1)))"
  using scan_ranges_two_clocks [of clock cur d _ clock']
  by (auto simp: for_body_def split: sum.split)

lemma for_loop_two_clocks:
  "for_loop clock cur m d comb a = for_loop clock' cur m d comb a
   \<or> (for_loop clock cur m d comb a = Inr (clock 1)
      \<and> for_loop clock' cur m d comb a = Inr (clock' 1))"
proof (induction comb arbitrary: a)
  case Nil
  show ?case by simp
next
  case (Cons c comb)
  from for_body_two_clocks [of clock cur m d c clock'] show ?case
  proof
    assume eq: "for_body clock cur m d c = for_body clock' cur m d c"
    show ?thesis
    proof (cases "for_body clock' cur m d c")
      case (Inl e)
      with eq show ?thesis by simp
    next
      case (Inr s)
      show ?thesis
      proof (cases s)
        case (Return t)
        with Inr eq show ?thesis by simp
      next
        case (Next t)
        with Inr eq Cons.IH [of "Some t"] show ?thesis by simp
      qed
    qed
  next
    assume "for_body clock cur m d c = Inr (Return (clock 1))
      \<and> for_body clock' cur m d c = Inr (Return (clock' 1))"
    then show ?thesis by simp
  qed
qed

lemma find_available_slot_enumeration:
  assumes "0 \<le> minimum_people"
    and "combinations (map fst calendar_date_ranges) (nat minimum_people) = earlier @ c # later"
    and "\<forall>c'\<in>set earlier. \<exists>t.
           for_body clock (drop_microseconds (clock 0)) calendar_date_ranges duration_in_minutes c'
             = Inr (Next t)"
  shows "(for_body clock (drop_microseconds (clock 0)) calendar_date_ranges duration_in_minutes c
            = Inr (Return t) \<longrightarrow>
          find_available_slot clock calendar_date_ranges duration_in_minutes minimum_people = Inr t)
       \<and> (later = [] \<and>
          for_body clock (drop_microseconds (clock 0)) calendar_date_ranges duration_in_minutes c
            = Inr (Next t) \<longrightarrow>
          find_available_slot clock calendar_date_ranges duration_in_minutes minimum_people
            = add_timedelta t (seconds 1))"
proof -
  let ?cur = "drop_microseconds (clock 0)"
  from for_loop_skip [OF assms(3)] obtain a' where
    "for_loop clock ?cur calendar_date_ranges duration_in_minutes (earlier @ c # later) None
       = for_loop clock ?cur calendar_date_ranges duration_in_minutes (c # later) a'"
    by blast
  with assms(1,2) have
    "find_available_slot clock calendar_date_ranges duration_in_minutes minimum_people
       = for_loop clock ?cur calendar_date_ranges duration_in_minutes (c # later) a'"
    by (simp add: find_available_slot_def)
  then show ?thesis by auto
qed

text \<open>
  C1. The first combination, in enumeration order, that yields an answer is to decide the
  result. With the calendars a = 09:00-09:30 and b = 09:00-11:00, a headcount of 1, a
  duration of 30 minutes and the current date 08:50 the combinations are [a], [b]; the
  first one leaves the candidate 09:30, but the \<open>break\<close> of line 143 leaves only the
  \<open>while\<close> loop: line 121 sets the candidate anew for [b] and the \<open>return\<close> of line
  145, after the \<open>for\<close> loop, gives 11:00:01. With the same two calendars in the order
  b, a the result is 09:30:01.
\<close>

theorem first_combination_overwritten:
  "combinations (map fst [(''a.txt'', [(at_time 9 0 0, at_time 9 30 0)]),
                          (''b.txt'', [(at_time 9 0 0, at_time 11 0 0)])]) (nat 1)
     = [[''a.txt''], [''b.txt'']]
   \<and> for_body (fixed_clock (at_time 8 50 0)) (drop_microseconds (fixed_clock (at_time 8 50 0) 0))
       [(''a.txt'', [(at_time 9 0 0, at_time 9 30 0)]), (''b.txt'', [(at_time 9 0 0, at_time 11 0 0)])]
       30 [''a.txt''] = Inr (Next (at_time 9 30 0))
   \<and> find_available_slot (fixed_clock (at_time 8 50 0))
       [(''a.txt'', [(at_time 9 0 0, at_time 9 30 0)]), (''b.txt'', [(at_time 9 0 0, at_time 11 0 0)])]
       30 1 = Inr (at_time 11 0 1)
   \<and> find_available_slot (fixed_clock (at_time 8 50 0))
       [(''b.txt'', [(at_time 9 0 0, at_time 11 0 0)]), (''a.txt'', [(at_time 9 0 0, at_time 9 30 0)])]
       30 1 = Inr (at_time 9 30 1)"
  by code_simp

text \<open>
  C4 (as amended). The search reads the clock at entry, drops the microseconds and
  compares against that value only; when the current time is the answer it reads the
  clock a second time and returns that reading. Two runs on the same inputs whose entry
  readings agree to the second return the same result, unless both return their own
  second reading.
\<close>

theorem find_available_slot_two_readings:
  assumes "drop_microseconds (clock 0) = drop_microseconds (clock' 0)"
  shows "find_available_slot clock calendar_date_ranges duration_in_minutes minimum_people
           = find_available_slot clock' calendar_date_ranges duration_in_minutes minimum_people
       \<or> (find_available_slot clock calendar_date_ranges duration_in_minutes minimum_people
            = Inr (clock 1)
          \<and> find_available_slot clock' calendar_date_ranges duration_in_minutes minimum_people
            = Inr (clock' 1))"
  using assms for_loop_two_clocks [of clock "drop_microseconds (clock' 0)" calendar_date_ranges
      duration_in_minutes "combinations (map fst calendar_date_ranges) (nat minimum_people)" None clock']
  by (simp add: find_available_slot_def)


theorem find_available_slot_two_readings_witness:
  "drop_microseconds (fixed_clock (mk_datetime 2022 5 14 8 50 0) 0)
     = drop_microseconds (ticking_clock (mk_datetime 2022 5 14 8 50 0) 0)
   \<and> (find_available_slot (fixed_clock (mk_datetime 2022 5 14 8 50 0))
         [(''a.txt'', [(mk_datetime 2022 5 14 9 0 0, mk_datetime 2022 5 14 9 30 0)])] 30 1
       = find_available_slot (ticking_clock (mk_datetime 2022 5 14 8 50 0))
         [(''a.txt'', [(mk_datetime 2022 5 14 9 0 0, mk_datetime 2022 5 14 9 30 0)])] 30 1
      \<or> (find_available_slot (fixed_clock (mk_datetime 2022 5 14 8 50 0))
         [(''a.txt'', [(mk_datetime 2022 5 14 9 0 0, mk_datetime 2022 5 14 9 30 0)])] 30 1
          = Inr (fixed_clock (mk_datetime 2022 5 14 8 50 0) 1)
        \<and> find_available_slot (ticking_clock (mk_datetime 2022 5 14 8 50 0))
         [(''a.txt'', [(mk_datetime 2022 5 14 9 0 0, mk_datetime 2022 5 14 9 30 0)])] 30 1
          = Inr (ticking_clock (mk_datetime 2022 5 14 8 50 0) 1)))"
proof -
  have h: "drop_microseconds (fixed_clock (mk_datetime 2022 5 14 8 50 0) 0)
     = drop_microseconds (ticking_clock (mk_datetime 2022 5 14 8 50 0) 0)"
    by (simp add: fixed_clock_def ticking_clock_def seconds_def)
  from find_available_slot_two_readings [of "fixed_clock (mk_datetime 2022 5 14 8 50 0)"
      "ticking_clock (mk_datetime 2022 5 14 8 50 0)", OF h] h
  show ?thesis by blast
qed

theorem now_resampled_counterexample:
  "fixed_clock (mk_datetime 2022 5 14 8 50 0) 0 = ticking_clock (mk_datetime 2022 5 14 8 50 0) 0
   \<and> find_available_slot (fixed_clock (mk_datetime 2022 5 14 8 50 0)) [(''a.txt'', [])] 30 1
       = Inr (mk_datetime 2022 5 14 8 50 0)
   \<and> find_available_slot (ticking_clock (mk_datetime 2022 5 14 8 50 0)) [(''a.txt'', [])] 30 1
       = Inr (mk_datetime 2022 5 14 8 50 1)"
  by code_simp

text \<open>
  C5. A range nested in its predecessor must not open a gap at its own end. With the pool
  09:00-12:00, 10:00-10:30, 12:30-13:00, a duration of 30 minutes and the current date
  08:50, the loop takes the first branch at \<open>i = 0\<close> and keeps 09:00-12:00 for the test of
  the next pair, but at \<open>i = 1\<close> the last branch sets \<open>shift = 0\<close> before the gap is
  measured, so the gap is taken from the end of the nested range: the search returns
  10:30:01, inside the busy range 09:00-12:00.
\<close>

theorem nested_range_end_reported:
  "find_available_slot (fixed_clock (at_time 8 50 0))
     [(''a.txt'', [(at_time 9 0 0, at_time 12 0 0), (at_time 10 0 0, at_time 10 30 0),
                   (at_time 12 30 0, at_time 13 0 0)])] 30 1
   = Inr (at_time 10 30 1)"
  by code_simp

lemma nested_range_two_ranges:
  "find_available_slot (fixed_clock (at_time 8 50 0))
     [(''a.txt'', [(at_time 9 0 0, at_time 12 0 0), (at_time 10 0 0, at_time 10 30 0)])] 30 1
   = Inr (at_time 12 0 1)"
  by code_simp

text \<open>
  C7 (as amended). For every combination the enumeration reaches (each earlier one having
  left a candidate only), if the earliest start of its pooled ranges is after the current
  date by strictly more than the duration in minutes, the search returns the current
  time, read again from the clock, and looks no further.
\<close>

theorem find_available_slot_now:
  assumes "0 \<le> minimum_people"
    and "combinations (map fst calendar_date_ranges) (nat minimum_people) = earlier @ c # later"
    and "\<forall>c'\<in>set earlier. \<exists>t.
           for_body clock (drop_microseconds (clock 0)) calendar_date_ranges duration_in_minutes c'
             = Inr (Next t)"
    and "flatten_ranges calendar_date_ranges c = Inr date_ranges"
    and "date_ranges \<noteq> []"
    and "drop_microseconds (clock 0) < Min (fst ` set date_ranges)"
    and "duration_in_minutes * 60000000 < Min (fst ` set date_ranges) - drop_microseconds (clock 0)"
  shows "find_available_slot clock calendar_date_ranges duration_in_minutes minimum_people
           = Inr (clock 1)"
proof -
  let ?cur = "drop_microseconds (clock 0)"
  from assms(5) obtain first others where srt: "sort_key fst date_ranges = first # others"
    by (cases "sort_key fst date_ranges") (auto dest: arg_cong [where f = length])
  then have "fst first = Min (fst ` set date_ranges)" by (rule sort_key_hd_Min)
  with assms(6,7) srt have "scan_ranges clock ?cur duration_in_minutes date_ranges
      = Inr (Return (clock 1))"
    by (simp add: scan_ranges_def minutes_gt_def)
  with assms(4) have body:
    "for_body clock ?cur calendar_date_ranges duration_in_minutes c = Inr (Return (clock 1))"
    by (simp add: for_body_def)
  from for_loop_skip [OF assms(3)] obtain a' where
    "for_loop clock ?cur calendar_date_ranges duration_in_minutes (earlier @ c # later) None
       = for_loop clock ?cur calendar_date_ranges duration_in_minutes (c # later) a'"
    by blast
  with assms(1,2) body show ?thesis by (simp add: find_available_slot_def)
qed

theorem find_available_slot_now_witness:
  "find_available_slot (ticking_clock (at_time 8 0 0))
     [(''a.txt'', [(at_time 8 10 0, at_time 9 30 0)]),
      (''b.txt'', [(at_time 9 0 0, at_time 11 0 0), (at_time 8 31 0, at_time 8 40 0)]),
      (''c.txt'', [(at_time 8 5 0, at_time 8 10 0)])] 30 1
   = Inr (at_time 8 0 1)"
proof -
  let ?m = "[(''a.txt'', [(at_time 8 10 0, at_time 9 30 0)]),
      (''b.txt'', [(at_time 9 0 0, at_time 11 0 0), (at_time 8 31 0, at_time 8 40 0)]),
      (''c.txt'', [(at_time 8 5 0, at_time 8 10 0)])]"
  let ?clock = "ticking_clock (at_time 8 0 0)"
  let ?rs = "[(at_time 9 0 0, at_time 11 0 0), (at_time 8 31 0, at_time 8 40 0)]"
  have z: "(0::int) \<le> 1" by simp
  have c: "combinations (map fst ?m) (nat 1) = [[''a.txt'']] @ [''b.txt''] # [[''c.txt'']]"
    by code_simp
  have a: "for_body ?clock (drop_microseconds (?clock 0)) ?m 30 [''a.txt'']
             = Inr (Next (at_time 9 30 0))"
    by code_simp
  have e: "\<forall>c'\<in>set [[''a.txt'']]. \<exists>t.
      for_body ?clock (drop_microseconds (?clock 0)) ?m 30 c' = Inr (Next t)"
    using a by simp
  have f: "flatten_ranges ?m [''b.txt''] = Inr ?rs" by code_simp
  have n: "?rs \<noteq> []" by simp
  have mn: "Min (fst ` set ?rs) = at_time 8 31 0"
    by (simp add: at_time_def mk_datetime_def ymd2ord_def days_before_year_def
        days_before_month_def is_leap_def)
  have cur: "drop_microseconds (?clock 0) = at_time 8 0 0"
    by code_simp
  have lt: "drop_microseconds (?clock 0) < Min (fst ` set ?rs)"
    unfolding mn cur by code_simp
  have gap: "30 * 60000000 < Min (fst ` set ?rs) - drop_microseconds (?clock 0)"
    unfolding mn cur by code_simp
  have one: "?clock 1 = at_time 8 0 1" by code_simp
  from find_available_slot_now [OF z c e f n lt gap] one show ?thesis by simp
qed

theorem exact_duration_gap_counterexample:
  "flatten_ranges [(''a.txt'', [(at_time 9 30 0, at_time 10 0 0)])] [''a.txt'']
     = Inr [(at_time 9 30 0, at_time 10 0 0)]
   \<and> drop_microseconds (fixed_clock (at_time 9 0 0) 0) < at_time 9 30 0
   \<and> at_time 9 30 0 - drop_microseconds (fixed_clock (at_time 9 0 0) 0) = 30 * 60000000
   \<and> find_available_slot (fixed_clock (at_time 9 0 0))
       [(''a.txt'', [(at_time 9 30 0, at_time 10 0 0)])] 30 1 = Inr (at_time 10 0 1)
   \<and> fixed_clock (at_time 9 0 0) 1 = at_time 9 0 0"
  by code_simp

lemma item_in_set: "in_range xs j \<Longrightarrow> item xs j \<in> set xs"
  by (auto simp: in_range_def item_def)



text \<open>
  C6. Without a qualifying interior gap the answer is one second past the latest end of the
  pool. The pool 09:00-12:00, 10:00-10:30, 11:10-12:00 is busy from 09:00 to 12:00 without
  interruption, so for a duration of 30 minutes (current date 08:50) the answer is to be
  12:00:01; the loop measures the gap before 11:10 from the end of the nested range
  10:00-10:30 (40 minutes) and the search returns 10:30:01. The two calendars of the
  claim's own example give 10:45:01.
\<close>

theorem covered_pool_reports_nested_end:
  "find_available_slot (fixed_clock (at_time 8 50 0))
     [(''a.txt'', [(at_time 9 0 0, at_time 12 0 0), (at_time 10 0 0, at_time 10 30 0),
                   (at_time 11 10 0, at_time 12 0 0)])] 30 1
   = Inr (at_time 10 30 1)"
  by code_simp

lemma fallback_two_calendars:
  "find_available_slot (fixed_clock (at_time 9 50 0))
     [(''a.txt'', [(at_time 10 0 0, at_time 10 30 0)]),
      (''b.txt'', [(at_time 10 15 0, at_time 10 45 0)])] 15 2
   = Inr (at_time 10 45 1)"
  by code_simp

lemma last_second_overflow:
  "find_available_slot (fixed_clock (mk_datetime 9999 12 31 12 0 0))
     [(''a.txt'', [(mk_datetime 9999 12 31 0 0 0, mk_datetime 9999 12 31 23 59 59)])] 30 1
   = Inl OverflowError"
  by code_simp










section \<open>Properties of the record parser\<close>

lemma split_from_separator:
  assumes "CHR ''-'' \<notin> set (dropWhile (\<lambda>c. c \<noteq> CHR '' '') a)"
  shows "split_from '' - '' acc (a @ '' - '' @ r) = (rev acc @ a) # split_from '' - '' [] r"
  using assms
proof (induction a arbitrary: acc)
  case Nil
  show ?case by simp
next
  case (Cons c a)
  show ?case
  proof (cases "c = CHR '' ''")
    case True
    with Cons.prems have nd: "CHR ''-'' \<notin> set a" by simp
    then have "\<not> startswith (c # a @ '' - '' @ r) '' - ''"
      by (cases a) auto
    moreover from nd have "CHR ''-'' \<notin> set (dropWhile (\<lambda>c. c \<noteq> CHR '' '') a)"
      by (auto dest: set_dropWhileD)
    ultimately show ?thesis using Cons.IH [of "c # acc"] by simp
  next
    case False
    with Cons.prems have "CHR ''-'' \<notin> set (dropWhile (\<lambda>c. c \<noteq> CHR '' '') a)" by simp
    with False Cons.IH [of "c # acc"] show ?thesis by simp
  qed
qed

lemma match_seq_chars:
  "match_seq alt s = Some (m, r) \<Longrightarrow> s = m @ r \<and> set m \<subseteq> (\<Union>cls\<in>set alt. set cls)"
proof (induction alt s arbitrary: m rule: match_seq.induct)
  case (1 s)
  then show ?case by simp
next
  case (2 cls classes)
  then show ?case by simp
next
  case (3 cls classes c s)
  then show ?case by (fastforce split: if_splits option.splits)
qed

lemma re_match_chars:
  "(groups, r) \<in> set (re_match res s) \<Longrightarrow>
   \<exists>m. s = m @ r \<and> set m \<subseteq> (\<Union>e\<in>set res. re_chars e)"
proof (induction res s arbitrary: groups rule: re_match.induct)
  case (1 s)
  then show ?case by simp
next
  case (2 c res s)
  then obtain xs where s: "s = c # xs" and "(groups, r) \<in> set (re_match res xs)"
    by (auto split: list.splits if_splits)
  with "2.IH" obtain m where "xs = m @ r" "set m \<subseteq> (\<Union>e\<in>set res. re_chars e)"
    by blast
  with s have "s = (c # m) @ r \<and> set (c # m) \<subseteq> (\<Union>e\<in>set (Lit c # res). re_chars e)"
    by auto
  then show ?case by blast
next
  case (3 alternatives res s)
  then obtain alt m0 rest gs where alt: "alt \<in> set alternatives"
    and ms: "match_seq alt s = Some (m0, rest)"
    and rm: "(gs, r) \<in> set (re_match res rest)"
    by (auto split: option.splits) (metis)
  from match_seq_chars [OF ms] have s: "s = m0 @ rest"
    and m0: "set m0 \<subseteq> (\<Union>cls\<in>set alt. set cls)" by auto
  from "3.IH" [OF alt ms refl rm] obtain m where
    m: "rest = m @ r" "set m \<subseteq> (\<Union>e\<in>set res. re_chars e)"
    by auto
  from s m m0 alt
  have "s = (m0 @ m) @ r \<and> set (m0 @ m) \<subseteq> (\<Union>e\<in>set (Group alternatives # res). re_chars e)"
    by auto
  then show ?case by blast
next
  case (4 res s)
  let ?k = "length (takeWhile (\<lambda>c. c \<in> set whitespace) s)"
  from "4.prems" obtain n where n: "1 \<le> n" "n \<le> ?k"
    and rm: "(groups, r) \<in> set (re_match res (drop n s))"
    by auto
  from n have mem: "n \<in> set (rev [1 ..< Suc ?k])" by auto
  from "4.IH" [OF mem rm] obtain m where
    m: "drop n s = m @ r" "set m \<subseteq> (\<Union>e\<in>set res. re_chars e)"
    by auto
  have "take n s = take n (takeWhile (\<lambda>c. c \<in> set whitespace) s
                           @ dropWhile (\<lambda>c. c \<in> set whitespace) s)"
    by simp
  also have "\<dots> = take n (takeWhile (\<lambda>c. c \<in> set whitespace) s)"
    using n(2) by (simp only: take_append) simp
  finally have "set (take n s) \<subseteq> set (takeWhile (\<lambda>c. c \<in> set whitespace) s)"
    by (metis set_take_subset)
  then have tk: "set (take n s) \<subseteq> set whitespace"
    by (auto dest: set_takeWhileD)
  have "s = take n s @ drop n s" by simp
  with m have "s = (take n s @ m) @ r" by simp
  moreover from tk m have "set (take n s @ m) \<subseteq> (\<Union>e\<in>set (Spaces # res). re_chars e)"
    by auto
  ultimately show ?case by blast
qed


lemma re_match_append:
  "(groups, r) \<in> set (re_match (a @ b) s) \<Longrightarrow>
   \<exists>g1 g2 mid. (g1, mid) \<in> set (re_match a s) \<and> (g2, r) \<in> set (re_match b mid)"
proof (induction a s arbitrary: groups rule: re_match.induct)
  case (1 s)
  then show ?case by auto
next
  case (2 c res s)
  then obtain xs where s: "s = c # xs" and "(groups, r) \<in> set (re_match (res @ b) xs)"
    by (auto split: list.splits if_splits)
  with "2.IH" obtain g1 g2 mid where
    g: "(g1, mid) \<in> set (re_match res xs)" "(g2, r) \<in> set (re_match b mid)"
    by blast
  from s g(1) have "(g1, mid) \<in> set (re_match (Lit c # res) s)" by simp
  with g(2) show ?case by blast
next
  case (3 alternatives res s)
  then obtain alt m0 rest gs where alt: "alt \<in> set alternatives"
    and ms: "match_seq alt s = Some (m0, rest)"
    and rm: "(gs, r) \<in> set (re_match (res @ b) rest)"
    by (auto split: option.splits) (metis)
  from "3.IH" [OF alt ms refl rm] obtain g1 g2 mid where
    g: "(g1, mid) \<in> set (re_match res rest)" "(g2, r) \<in> set (re_match b mid)"
    by auto
  from alt ms g(1) have "(m0 # g1, mid) \<in> set (re_match (Group alternatives # res) s)"
    by force
  with g(2) show ?case by blast
next
  case (4 res s)
  let ?k = "length (takeWhile (\<lambda>c. c \<in> set whitespace) s)"
  from "4.prems" obtain n where n: "1 \<le> n" "n \<le> ?k"
    and rm: "(groups, r) \<in> set (re_match (res @ b) (drop n s))"
    by auto
  from n have mem: "n \<in> set (rev [1 ..< Suc ?k])" by auto
  from "4.IH" [OF mem rm] obtain g1 g2 mid where
    g: "(g1, mid) \<in> set (re_match res (drop n s))" "(g2, r) \<in> set (re_match b mid)"
    by auto
  from mem g(1) have "(g1, mid) \<in> set (re_match (Spaces # res) s)"
    by (simp del: set_rev set_upt upt_Suc) blast
  with g(2) show ?case by blast
qed

lemma strptime_datetime_format_dash:
  assumes "strptime s datetime_format = Some t"
  shows "CHR ''-'' \<notin> set (dropWhile (\<lambda>c. c \<noteq> CHR '' '') s)"
proof -
  let ?pre = "[directive_Y, Lit CHR ''-'', directive_m, Lit CHR ''-'']"
  let ?post = "[directive_d, Spaces, directive_H, Lit CHR '':'', directive_M, Lit CHR '':'',
                directive_S]"
  have fmt: "datetime_format = ?pre @ ?post" by (simp add: datetime_format_def)
  have "re_match datetime_format s \<noteq> []"
    using assms by (auto simp: strptime_def)
  then obtain groups rest more where rm: "re_match datetime_format s = (groups, rest) # more"
    by (cases "re_match datetime_format s") auto
  with assms have "rest = []" by (auto simp: strptime_def split: if_splits)
  with rm have "(groups, []) \<in> set (re_match datetime_format s)" by simp
  then have "(groups, []) \<in> set (re_match (?pre @ ?post) s)" by (simp only: fmt)
  from re_match_append [OF this] obtain g1 g2 mid where
    pre: "(g1, mid) \<in> set (re_match ?pre s)" and post: "(g2, []) \<in> set (re_match ?post mid)"
    by blast
  from re_match_chars [OF pre] obtain m1 where
    m1: "s = m1 @ mid" "set m1 \<subseteq> (\<Union>e\<in>set ?pre. re_chars e)" by blast
  from re_match_chars [OF post] have
    m2: "set mid \<subseteq> (\<Union>e\<in>set ?post. re_chars e)" by auto
  have "CHR '' '' \<notin> (\<Union>e\<in>set ?pre. re_chars e)"
    by (simp add: directive_Y_def directive_m_def digit_def nonzero_def)
  with m1(2) have ns: "\<And>x. x \<in> set m1 \<Longrightarrow> x \<noteq> CHR '' ''" by auto
  have "CHR ''-'' \<notin> (\<Union>e\<in>set ?post. re_chars e)"
    by (simp add: directive_d_def directive_H_def directive_M_def directive_S_def
        digit_def nonzero_def whitespace_def)
  with m2 have nd: "CHR ''-'' \<notin> set mid" by auto
  have "dropWhile (\<lambda>c. c \<noteq> CHR '' '') (m1 @ mid) = dropWhile (\<lambda>c. c \<noteq> CHR '' '') mid"
    using ns by (simp add: dropWhile_append2)
  with m1(1) nd show ?thesis by (auto dest: set_dropWhileD)
qed

lemma str_split_three_parts:
  assumes "CHR ''-'' \<notin> set (dropWhile (\<lambda>c. c \<noteq> CHR '' '') s)"
    and "CHR ''-'' \<notin> set (dropWhile (\<lambda>c. c \<noteq> CHR '' '') e)"
  shows "str_split (s @ '' - '' @ e @ '' - '' @ x) '' - '' = s # e # str_split x '' - ''"
  using split_from_separator [OF assms(1), of "[]" "e @ '' - '' @ x"]
    split_from_separator [OF assms(2), of "[]" x]
  by (simp add: str_split_def)

lemma str_split_not_empty: "split_from sep acc s \<noteq> []"
  by (induction sep acc s rule: split_from.induct) auto

lemma str_split_Cons: "\<exists>first others. str_split dates sep = first # others"
  using str_split_not_empty [of sep "[]" dates]
  by (cases "str_split dates sep") (auto simp: str_split_def)

text \<open>
  C10. A record \<open>S - E - X\<close> whose first two parts \<open>S\<close> and \<open>E\<close> are accepted by
  \<open>strptime\<close> with the format \<open>'%Y-%m-%d %H:%M:%S'\<close> is accepted, with the range from
  \<open>S\<close> to \<open>E\<close>: whatever follows the second part, further separators included, is never
  looked at.
\<close>

theorem validate_date_range_format_extra_parts:
  assumes "strptime s datetime_format = Some start"
    and "strptime e datetime_format = Some finish"
  shows "validate_date_range_format (s @ '' - '' @ e @ '' - '' @ x) = Inr (start, finish)"
proof -
  have "str_split (s @ '' - '' @ e @ '' - '' @ x) '' - '' = s # e # str_split x '' - ''"
    using assms by (intro str_split_three_parts strptime_datetime_format_dash)
  moreover have "two_part (s # e # str_split x '' - '') = Inr (start, finish)"
    using assms by (simp add: two_part_def in_range_def item_def)
  ultimately show ?thesis by (simp add: validate_date_range_format_def)
qed

theorem validate_date_range_format_extra_parts_witness:
  "validate_date_range_format
     (''2022-05-14 12:00:00'' @ '' - '' @ ''2022-05-14 12:59:59'' @ '' - '' @ ''lunch - x'')
   = Inr (mk_datetime 2022 5 14 12 0 0, mk_datetime 2022 5 14 12 59 59)"
proof -
  have s: "strptime ''2022-05-14 12:00:00'' datetime_format = Some (mk_datetime 2022 5 14 12 0 0)"
    by code_simp
  have e: "strptime ''2022-05-14 12:59:59'' datetime_format = Some (mk_datetime 2022 5 14 12 59 59)"
    by code_simp
  from validate_date_range_format_extra_parts [OF s e] show ?thesis .
qed

text \<open>
  C3 (as amended). Only the first one or two parts of a record are looked at. A record
  whose first part is accepted neither as a date and time nor as a date, and a record
  whose first part is a date and time followed by a second part that is not, raises
  ValueError with the parts of the record and the two formats in its message.
\<close>

theorem validate_date_range_format_error:
  assumes "str_split dates '' - '' = first # others"
    and "strptime first date_format = None"
    and "strptime first datetime_format = None
         \<or> (\<exists>second rest. others = second # rest \<and> strptime second datetime_format = None)"
  shows "validate_date_range_format dates
           = Inl (ValueError (DoesNotMatchFormat (first # others)))"
proof -
  have i0: "in_range (first # others) 0" "item (first # others) 0 = first"
    by (simp_all add: in_range_def item_def)
  from assms(3) have "two_part (first # others) = Inl (ValueError StrptimeMismatch)"
  proof
    assume "strptime first datetime_format = None"
    with i0 show ?thesis by (simp add: two_part_def)
  next
    assume "\<exists>second rest. others = second # rest \<and> strptime second datetime_format = None"
    then obtain second rest where o: "others = second # rest"
      and n: "strptime second datetime_format = None" by blast
    have "in_range (first # second # rest) 1" "item (first # second # rest) 1 = second"
      by (simp_all add: in_range_def item_def)
    with i0 o n show ?thesis by (simp add: two_part_def split: option.split)
  qed
  moreover from i0 assms(2) have
    "entire_day (first # others) = Inl (ValueError (DoesNotMatchFormat (first # others)))"
    by (simp add: entire_day_def)
  ultimately show ?thesis using assms(1) by (simp add: validate_date_range_format_def)
qed

theorem validate_date_range_format_error_witness:
  "validate_date_range_format ''2020/10/24 23:56:54''
     = Inl (ValueError (DoesNotMatchFormat [''2020/10/24 23:56:54'']))
   \<and> validate_date_range_format ''2022-05-14 12:00:00 - 2022-05-14 25:00:00''
     = Inl (ValueError (DoesNotMatchFormat [''2022-05-14 12:00:00'', ''2022-05-14 25:00:00'']))"
proof -
  have a: "str_split ''2020/10/24 23:56:54'' '' - '' = ''2020/10/24 23:56:54'' # []"
    by code_simp
  have a1: "strptime ''2020/10/24 23:56:54'' date_format = None" by code_simp
  have "strptime ''2020/10/24 23:56:54'' datetime_format = None" by code_simp
  then have a2: "strptime ''2020/10/24 23:56:54'' datetime_format = None
     \<or> (\<exists>second rest. [] = second # rest \<and> strptime second datetime_format = None)"
    by simp
  have b: "str_split ''2022-05-14 12:00:00 - 2022-05-14 25:00:00'' '' - ''
     = ''2022-05-14 12:00:00'' # [''2022-05-14 25:00:00'']"
    by code_simp
  have b1: "strptime ''2022-05-14 12:00:00'' date_format = None" by code_simp
  have b0: "strptime ''2022-05-14 25:00:00'' datetime_format = None" by code_simp
  then have b2: "strptime ''2022-05-14 12:00:00'' datetime_format = None
     \<or> (\<exists>second rest. [''2022-05-14 25:00:00''] = second # rest
           \<and> strptime second datetime_format = None)"
    by simp
  from validate_date_range_format_error [OF a a1 a2]
    validate_date_range_format_error [OF b b1 b2]
  show ?thesis by simp
qed

theorem three_part_record_counterexample:
  "\<not> matches_two_part ''2022-05-14 12:00:00 - 2022-05-14 12:59:59 - 2022-05-14 13:30:00''
   \<and> \<not> matches_one_part ''2022-05-14 12:00:00 - 2022-05-14 12:59:59 - 2022-05-14 13:30:00''
   \<and> validate_date_range_format
       ''2022-05-14 12:00:00 - 2022-05-14 12:59:59 - 2022-05-14 13:30:00''
     = Inr (mk_datetime 2022 5 14 12 0 0, mk_datetime 2022 5 14 12 59 59)"
  by code_simp

lemma date_with_trailing_part_accepted:
  "\<not> matches_two_part ''2022-05-14 - garbage'' \<and> \<not> matches_one_part ''2022-05-14 - garbage''
   \<and> validate_date_range_format ''2022-05-14 - garbage''
     = Inr (mk_datetime 2022 5 14 0 0 0, mk_datetime 2022 5 14 23 59 59)"
  by code_simp

lemma single_datetime_index_error:
  "\<not> matches_two_part ''2022-05-14 12:00:00'' \<and> \<not> matches_one_part ''2022-05-14 12:00:00''
   \<and> validate_date_range_format ''2022-05-14 12:00:00'' = Inl IndexError"
  by code_simp

lemma validate_date_range_format_two_part:
  "validate_date_range_format ''2022-05-14 12:00:00 - 2022-05-14 12:59:59''
     = Inr (mk_datetime 2022 5 14 12 0 0, mk_datetime 2022 5 14 12 59 59)
   \<and> validate_date_range_format ''2022-05-14''
     = Inr (mk_datetime 2022 5 14 0 0 0, mk_datetime 2022 5 14 23 59 59)"
  by code_simp

section \<open>Properties of the loader\<close>

lemma file_date_ranges_filter:
  assumes "map (\<lambda>line. validate_date_range_format (strip_newlines line)) lines = map Inr parsed"
  shows "file_date_ranges current_date lines = Inr (filter (\<lambda>r. current_date < snd r) parsed)"
  using assms
proof (induction lines arbitrary: parsed)
  case Nil
  then show ?case by simp
next
  case (Cons line lines)
  then obtain r rs where p: "parsed = r # rs"
    and l: "validate_date_range_format (strip_newlines line) = Inr r"
    and ls: "map (\<lambda>line. validate_date_range_format (strip_newlines line)) lines = map Inr rs"
    by (cases parsed) auto
  from Cons.IH [OF ls] p l show ?case by (cases r) simp
qed

lemma calendars_loop_map_of:
  assumes "\<forall>file\<in>set calendar_files.
             map (\<lambda>line. validate_date_range_format (strip_newlines line)) (read_lines file)
               = map Inr (parsed file)"
  shows "\<exists>result. calendars_loop current_date read_lines calendar_files acc = Inr result
           \<and> (\<forall>file\<in>set calendar_files.
                 map_of result file = Some (filter (\<lambda>r. current_date < snd r) (parsed file)))
           \<and> (\<forall>k. k \<notin> set calendar_files \<longrightarrow> map_of result k = map_of acc k)"
  using assms
proof (induction calendar_files arbitrary: acc)
  case Nil
  then show ?case by simp
next
  case (Cons name names)
  let ?rs = "filter (\<lambda>r. current_date < snd r) (parsed name)"
  from Cons.prems have "file_date_ranges current_date (read_lines name) = Inr ?rs"
    by (intro file_date_ranges_filter) simp
  then have step: "calendars_loop current_date read_lines (name # names) acc
      = calendars_loop current_date read_lines names (AList.update name ?rs acc)"
    by simp
  from Cons.prems have "\<forall>f\<in>set names.
             map (\<lambda>line. validate_date_range_format (strip_newlines line)) (read_lines f)
               = map Inr (parsed f)" by simp
  from Cons.IH [OF this, of "AList.update name ?rs acc"] obtain result where
    res: "calendars_loop current_date read_lines names (AList.update name ?rs acc) = Inr result"
    and inn: "\<forall>f\<in>set names. map_of result f
                 = Some (filter (\<lambda>r. current_date < snd r) (parsed f))"
    and out: "\<forall>k. k \<notin> set names \<longrightarrow> map_of result k = map_of (AList.update name ?rs acc) k"
    by blast
  have "map_of result name = Some ?rs"
  proof (cases "name \<in> set names")
    case True
    with inn show ?thesis by blast
  next
    case False
    with out show ?thesis by (simp add: update_conv')
  qed
  moreover have "\<forall>k. k \<notin> set (name # names) \<longrightarrow> map_of result k = map_of acc k"
    using out by (simp add: update_conv')
  ultimately show ?case using step res inn by simp
qed

text \<open>
  C9. When every line of every calendar file parses, \<open>get_calendar_date_ranges\<close> returns
  a dictionary that maps each file to the ranges parsed from its lines, in the order
  of the lines, without those whose end is at or before the current date; a range that
  ends after the current date is kept as parsed, also when it starts before it.
\<close>

theorem get_calendar_date_ranges_future:
  assumes "\<forall>file\<in>set calendar_files.
             map (\<lambda>line. validate_date_range_format (strip_newlines line)) (read_lines file)
               = map Inr (parsed file)"
  shows "\<exists>result. get_calendar_date_ranges clock read_lines calendar_files = Inr result
           \<and> (\<forall>file\<in>set calendar_files.
                 map_of result file
                   = Some (filter (\<lambda>(start, finish). clock 0 < finish) (parsed file)))"
proof -
  have "(\<lambda>(start, finish). clock 0 < finish) = (\<lambda>r::date_range. clock 0 < snd r)"
    by auto
  with calendars_loop_map_of [OF assms, of "clock 0" "[]"] show ?thesis
    by (auto simp: get_calendar_date_ranges_def)
qed

theorem get_calendar_date_ranges_future_witness:
  "\<exists>result. get_calendar_date_ranges (fixed_clock (at_time 12 30 0)) example_lines
               [''a.txt'', ''b.txt''] = Inr result
     \<and> map_of result ''a.txt'' = Some [(at_time 12 0 0, at_time 12 59 59)]
     \<and> map_of result ''b.txt'' = Some []"
proof -
  have a: "map (\<lambda>line. validate_date_range_format (strip_newlines line)) (example_lines ''a.txt'')
             = map Inr (example_parsed ''a.txt'')"
    by code_simp
  have b: "map (\<lambda>line. validate_date_range_format (strip_newlines line)) (example_lines ''b.txt'')
             = map Inr (example_parsed ''b.txt'')"
    by code_simp
  have h: "\<forall>file\<in>set [''a.txt'', ''b.txt''].
             map (\<lambda>line. validate_date_range_format (strip_newlines line)) (example_lines file)
               = map Inr (example_parsed file)"
    using a b by simp
  have fa: "filter (\<lambda>(start, finish). fixed_clock (at_time 12 30 0) 0 < finish)
              (example_parsed ''a.txt'') = [(at_time 12 0 0, at_time 12 59 59)]"
    by code_simp
  have fb: "filter (\<lambda>(start, finish). fixed_clock (at_time 12 30 0) 0 < finish)
              (example_parsed ''b.txt'') = []"
    by code_simp
  from get_calendar_date_ranges_future [OF h, of "fixed_clock (at_time 12 30 0)"] fa fb
  show ?thesis by auto
qed

lemma get_calendar_date_ranges_example:
  "get_calendar_date_ranges (fixed_clock (at_time 12 30 0)) example_lines [''a.txt'', ''b.txt'']
     = Inr [(''a.txt'', [(at_time 12 0 0, at_time 12 59 59)]), (''b.txt'', [])]"
  by code_simp

text \<open>
  The loader refuses a folder without calendars, or with fewer calendars than the minimum
  headcount, before any range is read.
\<close>

lemma get_calendar_file_names_too_few:
  assumes "filter (\<lambda>file. endswith file ''.txt'') listdir = []
           \<or> int (length (filter (\<lambda>file. endswith file ''.txt'') listdir)) < minimum_people"
  shows "\<exists>m. get_calendar_file_names listdir minimum_people = Inl (Exception m)"
  using assms by (auto simp: get_calendar_file_names_def Let_def)

end
